theory Spec2Isabelle
  imports Main
begin

section \<open>Values, classes and errors of \<^verbatim>\<open>src/util/web_worker_transfer.js\<close>\<close>

text \<open>
  A class is known to the module through three things only: its \<^verbatim>\<open>name\<close>, and whether it
  carries a static \<^verbatim>\<open>serialize\<close> and a static \<^verbatim>\<open>deserialize\<close> member. The members are code
  of the registered classes, not of this module, so a class holds the index of each hook
  and the hooks themselves are parameters of \<open>serialize\<close> and \<open>deserialize\<close>. \<open>kid\<close> is
  the identity of the class object: two classes may share a name. The prototype of a class
  is taken to be an ordinary one: it inherits \<^verbatim>\<open>hasOwnProperty\<close> and the \<^verbatim>\<open>__proto__\<close> accessor
  from \<^verbatim>\<open>Object.prototype\<close>, its \<^verbatim>\<open>constructor\<close> is the class, and it has no accessor and no
  property called \<^verbatim>\<open>name\<close>, \<^verbatim>\<open>properties\<close> or \<^verbatim>\<open>_serialized\<close>.
\<close>

datatype klass = Klass (kid: nat) (kname: string) (kserialize: "nat option") (kdeserialize: "nat option")

text \<open>
  JavaScript values as the two functions tell them apart. Reference values that are
  returned as they are (boxed scalars, dates, regular expressions, buffers, views) carry
  their object identity as the first \<open>nat\<close>, so that equality in the model is \<^verbatim>\<open>===\<close>.
  A view carries its own identity and the identity of the buffer it is a view of
  (\<^verbatim>\<open>view.buffer\<close>). An object is its prototype and its own enumerable string-keyed data
  properties in enumeration order, each key at most once; the prototype is that of a
  class, or none (\<^verbatim>\<open>Object.create(null)\<close>). A function is a class object. The payload of
  a number is opaque to the module (it is only passed through), so an integer stands for
  it.
\<close>

datatype jsval =
    VNull
  | VUndefined
  | VBool bool
  | VNum int
  | VStr string
  | VBoxedBool nat bool
  | VBoxedNum nat int
  | VBoxedStr nat string
  | VDate nat int
  | VRegExp nat string
  | VArrayBuffer nat
  | VView nat nat
  | VArray "jsval list"
  | VObject "klass option" "(string \<times> jsval) list"
  | VFunction klass
  | VSymbol nat

datatype error =
    AssertionFailed
  | AlreadyRegistered string
  | AnonymousClass
  | UnregisteredClass string
  | UnsupportedType
  | TypeError
  | IllTyped
  | Unmodelled

text \<open>
  \<open>AssertionFailed\<close> and \<open>AlreadyRegistered\<close> are the two \<^verbatim>\<open>assert\<close> calls of \<^verbatim>\<open>register\<close>;
  \<open>AnonymousClass\<close>, \<open>UnregisteredClass\<close> and \<open>UnsupportedType\<close> are the three
  \<^verbatim>\<open>throw new Error\<close> of each of \<^verbatim>\<open>serialize\<close> and \<^verbatim>\<open>deserialize\<close>; \<open>TypeError\<close> is the
  exception the language itself raises on reading a property of \<^verbatim>\<open>undefined\<close> or \<^verbatim>\<open>null\<close>
  and on calling what is not a function.
  \<open>IllTyped\<close> marks an input of \<^verbatim>\<open>deserialize\<close> outside its declared Flow type
  \<^verbatim>\<open>Serialized\<close> (a record whose \<^verbatim>\<open>name\<close> is not a string, or whose \<^verbatim>\<open>properties\<close> is a
  primitive or an array), and \<open>Unmodelled\<close> marks the three places where \<^verbatim>\<open>serialize\<close> or
  \<^verbatim>\<open>deserialize\<close> leaves what the model follows: a call of a \<^verbatim>\<open>hasOwnProperty\<close> that the
  input defines itself, a \<^verbatim>\<open>constructor\<close> that is an object with a name of its own, and an
  object becoming the prototype of another through \<^verbatim>\<open>__proto__\<close>. On such a run the model
  stops where the code goes on; what the theorems below say of a result of the code, they
  say of runs that do not end in one of these two.
\<close>

section \<open>The registry\<close>

record entry =
  klass :: klass
  omit :: "string list"
  shallow :: "string list"

type_synonym registry = "string \<Rightarrow> entry option"

text \<open>
  The registry is the object literal \<^verbatim>\<open>{}\<close>: \<^verbatim>\<open>registry[name]\<close> is the stored entry, and
  for a name with no entry it is what \<^verbatim>\<open>Object.prototype\<close> has under that name, which is
  truthy and has neither \<^verbatim>\<open>klass\<close> nor \<^verbatim>\<open>omit\<close> nor \<^verbatim>\<open>shallow\<close>, and \<^verbatim>\<open>undefined\<close> for any
  other name.
\<close>

definition object_prototype_names :: "string list" where
  "object_prototype_names =
     [''constructor'', ''hasOwnProperty'', ''isPrototypeOf'', ''propertyIsEnumerable'',
      ''toLocaleString'', ''toString'', ''valueOf'', ''__proto__'',
      ''__defineGetter__'', ''__defineSetter__'', ''__lookupGetter__'', ''__lookupSetter__'']"

datatype found = Absent | Inherited | Entry entry

definition registry_get :: "registry \<Rightarrow> string \<Rightarrow> found" where
  "registry_get R name =
     (case R name of
        Some e \<Rightarrow> Entry e
      | None \<Rightarrow> if name \<in> set object_prototype_names then Inherited else Absent)"

record register_options =
  opt_omit :: "string list option"
  opt_shallow :: "string list option"

definition no_options :: register_options where
  "no_options = \<lparr>opt_omit = None, opt_shallow = None\<rparr>"

text \<open>
  \<^verbatim>\<open>register\<close> either throws and leaves the registry as it was, or stores the descriptor.
  The result is the error raised (if any) and the registry after the call.
\<close>

definition register :: "registry \<Rightarrow> klass \<Rightarrow> register_options \<Rightarrow> error option \<times> registry" where
  "register R k options =
     (let name = kname k in
      if name = [] then (Some AssertionFailed, R)
      else if registry_get R name \<noteq> Absent then (Some (AlreadyRegistered name), R)
      else (None, R(name \<mapsto>
              \<lparr>klass = k,
               omit = (case opt_omit options of None \<Rightarrow> [] | Some xs \<Rightarrow> xs),
               shallow = (case opt_shallow options of None \<Rightarrow> [] | Some xs \<Rightarrow> xs)\<rparr>)))"

section \<open>Objects and transport records\<close>

definition Object_klass :: klass where
  "Object_klass = Klass 0 ''Object'' None None"

text \<open>\<^verbatim>\<open>obj[key]\<close> for a key that no prototype has: the own property, \<^verbatim>\<open>undefined\<close> when
  there is none.\<close>

definition get_prop :: "(string \<times> jsval) list \<Rightarrow> string \<Rightarrow> jsval" where
  "get_prop ps key = (case map_of ps key of None \<Rightarrow> VUndefined | Some v \<Rightarrow> v)"

text \<open>Storing an own property: an existing key keeps its place, a new key goes last.\<close>

fun set_prop :: "(string \<times> 'a) list \<Rightarrow> string \<Rightarrow> 'a \<Rightarrow> (string \<times> 'a) list" where
  "set_prop [] key v = [(key, v)]"
| "set_prop ((k, w) # ps) key v =
     (if k = key then (k, v) # ps else (k, w) # set_prop ps key v)"

text \<open>
  \<^verbatim>\<open>obj[key] = v\<close> on an object with prototype \<open>proto\<close> and own properties \<open>ps\<close>. Under the
  key \<^verbatim>\<open>__proto__\<close>, an object that has a prototype and no own property of that name runs
  the accessor of \<^verbatim>\<open>Object.prototype\<close>: \<^verbatim>\<open>null\<close> removes the prototype, a primitive is ignored
  (no property is stored), and an object would become the prototype. Every other
  assignment stores an own property.
\<close>

fun assign :: "klass option \<Rightarrow> (string \<times> jsval) list \<Rightarrow> string \<Rightarrow> jsval \<Rightarrow>
    error + klass option \<times> (string \<times> jsval) list" where
  "assign proto ps key v =
     (if key = ''__proto__'' \<and> proto \<noteq> None \<and> map_of ps key = None then
        (case v of
           VNull \<Rightarrow> Inr (None, ps)
         | VUndefined \<Rightarrow> Inr (proto, ps)
         | VBool b \<Rightarrow> Inr (proto, ps)
         | VNum n \<Rightarrow> Inr (proto, ps)
         | VStr s \<Rightarrow> Inr (proto, ps)
         | VSymbol s \<Rightarrow> Inr (proto, ps)
         | _ \<Rightarrow> Inl Unmodelled)
      else Inr (proto, set_prop ps key v))"

text \<open>\<^verbatim>\<open>input.constructor\<close>: the own property if there is one, the class of the prototype
  otherwise, \<^verbatim>\<open>undefined\<close> without a prototype.\<close>

definition constructor_of :: "klass option \<Rightarrow> (string \<times> jsval) list \<Rightarrow> jsval" where
  "constructor_of proto ps =
     (case map_of ps ''constructor'' of
        Some v \<Rightarrow> v
      | None \<Rightarrow> (case proto of Some k \<Rightarrow> VFunction k | None \<Rightarrow> VUndefined))"

text \<open>\<^verbatim>\<open>klass.name\<close>: a \<^verbatim>\<open>TypeError\<close> on \<^verbatim>\<open>undefined\<close> and \<^verbatim>\<open>null\<close>, the name of a function, the
  own property of an object, and \<^verbatim>\<open>undefined\<close> on every other value.\<close>

fun class_name :: "jsval \<Rightarrow> error + jsval" where
  "class_name VUndefined = Inl TypeError"
| "class_name VNull = Inl TypeError"
| "class_name (VFunction k) = Inr (VStr (kname k))"
| "class_name (VObject proto ps) = Inr (get_prop ps ''name'')"
| "class_name _ = Inr VUndefined"

text \<open>
  \<^verbatim>\<open>input.hasOwnProperty(key)\<close> on an own key of \<^verbatim>\<open>input\<close>: the method of \<^verbatim>\<open>Object.prototype\<close>
  when the input has a prototype and no own property of that name (it returns true); a
  \<^verbatim>\<open>TypeError\<close> when the input has no prototype or has an own \<^verbatim>\<open>hasOwnProperty\<close> that is not a
  function; and a call of the input's own function otherwise.
\<close>

datatype guard = Builtin | NotCallable | Foreign

definition has_own_property :: "klass option \<Rightarrow> (string \<times> jsval) list \<Rightarrow> guard" where
  "has_own_property proto ps =
     (case map_of ps ''hasOwnProperty'' of
        Some (VFunction f) \<Rightarrow> Foreign
      | Some _ \<Rightarrow> NotCallable
      | None \<Rightarrow> (case proto of Some k \<Rightarrow> Builtin | None \<Rightarrow> NotCallable))"

text \<open>The object literal \<^verbatim>\<open>{name, properties}\<close> returned by \<^verbatim>\<open>serialize\<close>, for a
  \<^verbatim>\<open>properties\<close> object with the given prototype and own properties; \<open>transport_record\<close>
  is the usual case, where \<^verbatim>\<open>properties\<close> still has the prototype of an object literal.\<close>

definition record_of :: "string \<Rightarrow> klass option \<Rightarrow> (string \<times> jsval) list \<Rightarrow> jsval" where
  "record_of name proto properties =
     VObject (Some Object_klass) [(''name'', VStr name), (''properties'', VObject proto properties)]"

definition transport_record :: "string \<Rightarrow> (string \<times> jsval) list \<Rightarrow> jsval" where
  "transport_record name properties = record_of name (Some Object_klass) properties"

text \<open>\<^verbatim>\<open>!v\<close> is true of exactly the falsy values.\<close>

fun falsy :: "jsval \<Rightarrow> bool" where
  "falsy VNull = True"
| "falsy VUndefined = True"
| "falsy (VBool b) = (\<not> b)"
| "falsy (VNum n) = (n = 0)"
| "falsy (VStr s) = (s = [])"
| "falsy _ = False"

section \<open>serialize\<close>

text \<open>
  The optional \<^verbatim>\<open>transferables\<close> array is \<open>None\<close> when the caller passes none, and its
  content otherwise. \<^verbatim>\<open>serialize\<close> returns the value or the error, together with the
  content of the array at that moment: what was pushed before a \<^verbatim>\<open>throw\<close> stays pushed.

  The loop \<^verbatim>\<open>for (const key in input)\<close> visits the own enumerable properties of the input
  in order (inherited ones fail the guard); each round first calls
  \<^verbatim>\<open>input.hasOwnProperty(key)\<close>, then reads \<^verbatim>\<open>registry[name].omit\<close>, which is \<^verbatim>\<open>undefined\<close> (and
  its \<^verbatim>\<open>indexOf\<close> a \<^verbatim>\<open>TypeError\<close>) when the name is only inherited by the registry object.
  \<^verbatim>\<open>indexOf(key) >= 0\<close> is membership in the list.

  A static \<^verbatim>\<open>serialize\<close> hook receives the instance and the array; it returns a payload or
  throws, and leaves the array with some content. When no array was passed the hook
  receives \<^verbatim>\<open>undefined\<close> and there is no array whose content could change.
\<close>

type_synonym transferables = "jsval list option"

type_synonym serialize_hooks =
  "nat \<Rightarrow> jsval \<Rightarrow> transferables \<Rightarrow> (error + jsval) \<times> jsval list"

definition push :: "transferables \<Rightarrow> jsval \<Rightarrow> transferables" where
  "push ts b = (case ts of None \<Rightarrow> None | Some xs \<Rightarrow> Some (xs @ [b]))"

definition after_hook :: "transferables \<Rightarrow> jsval list \<Rightarrow> transferables" where
  "after_hook ts xs = (case ts of None \<Rightarrow> None | Some _ \<Rightarrow> Some xs)"

fun serialize :: "serialize_hooks \<Rightarrow> registry \<Rightarrow> jsval \<Rightarrow> transferables \<Rightarrow> (error + jsval) \<times> transferables"
and serialize_items :: "serialize_hooks \<Rightarrow> registry \<Rightarrow> jsval list \<Rightarrow> jsval list \<Rightarrow> transferables \<Rightarrow> (error + jsval list) \<times> transferables"
and serialize_props :: "serialize_hooks \<Rightarrow> registry \<Rightarrow> found \<Rightarrow> guard \<Rightarrow> (string \<times> jsval) list \<Rightarrow>
    klass option \<Rightarrow> (string \<times> jsval) list \<Rightarrow> transferables \<Rightarrow>
    (error + klass option \<times> (string \<times> jsval) list) \<times> transferables"
where
  "serialize H R (VArrayBuffer b) ts = (Inr (VArrayBuffer b), push ts (VArrayBuffer b))"
| "serialize H R (VView v b) ts = (Inr (VView v b), push ts (VArrayBuffer b))"
| "serialize H R (VArray xs) ts =
     (case serialize_items H R xs [] ts of
        (Inl e, ts') \<Rightarrow> (Inl e, ts')
      | (Inr serialized, ts') \<Rightarrow> (Inr (VArray serialized), ts'))"
| "serialize H R (VObject proto props) ts =
     (let klass = constructor_of proto props in
      case class_name klass of
        Inl err \<Rightarrow> (Inl err, ts)
      | Inr name \<Rightarrow>
          if falsy name then (Inl AnonymousClass, ts)
          else case klass of
            VFunction k \<Rightarrow>
              (case registry_get R (kname k) of
                 Absent \<Rightarrow> (Inl (UnregisteredClass (kname k)), ts)
               | registered \<Rightarrow>
                   (case kserialize k of
                      Some h \<Rightarrow>
                        (case H h (VObject proto props) ts of
                           (Inl err, xs) \<Rightarrow> (Inl err, after_hook ts xs)
                         | (Inr payload, xs) \<Rightarrow>
                             (Inr (transport_record (kname k) [(''_serialized'', payload)]), after_hook ts xs))
                    | None \<Rightarrow>
                        (case serialize_props H R registered (has_own_property proto props) props
                                (Some Object_klass) [] ts of
                           (Inl err, ts') \<Rightarrow> (Inl err, ts')
                         | (Inr (pproto, properties), ts') \<Rightarrow>
                             (Inr (record_of (kname k) pproto properties), ts'))))
          | _ \<Rightarrow> (Inl Unmodelled, ts))"
| "serialize H R (VFunction f) ts = (Inl UnsupportedType, ts)"
| "serialize H R (VSymbol s) ts = (Inl UnsupportedType, ts)"
| "serialize H R v ts = (Inr v, ts)"
| "serialize_items H R [] serialized ts = (Inr serialized, ts)"
| "serialize_items H R (item # items) serialized ts =
     (case serialize H R item ts of
        (Inl e, ts') \<Rightarrow> (Inl e, ts')
      | (Inr s, ts') \<Rightarrow> serialize_items H R items (serialized @ [s]) ts')"
| "serialize_props H R registered g [] pproto properties ts = (Inr (pproto, properties), ts)"
| "serialize_props H R registered g ((key, property) # rest) pproto properties ts =
     (case g of
        NotCallable \<Rightarrow> (Inl TypeError, ts)
      | Foreign \<Rightarrow> (Inl Unmodelled, ts)
      | Builtin \<Rightarrow>
          (case registered of
             Entry e \<Rightarrow>
               if key \<in> set (omit e) then serialize_props H R registered g rest pproto properties ts
               else if key \<in> set (shallow e) then
                 (case assign pproto properties key property of
                    Inl err \<Rightarrow> (Inl err, ts)
                  | Inr (pproto', properties') \<Rightarrow>
                      serialize_props H R registered g rest pproto' properties' ts)
               else
                 (case serialize H R property ts of
                    (Inl err, ts') \<Rightarrow> (Inl err, ts')
                  | (Inr s, ts') \<Rightarrow>
                      (case assign pproto properties key s of
                         Inl err \<Rightarrow> (Inl err, ts')
                       | Inr (pproto', properties') \<Rightarrow>
                           serialize_props H R registered g rest pproto' properties' ts'))
           | _ \<Rightarrow> (Inl TypeError, ts)))"

section \<open>deserialize\<close>

text \<open>
  A static \<^verbatim>\<open>deserialize\<close> hook receives the \<^verbatim>\<open>_serialized\<close> payload and returns a value or
  throws. \<^verbatim>\<open>deserialize\<close> reads \<^verbatim>\<open>name\<close> and \<^verbatim>\<open>properties\<close> off any object that is not an
  array. \<^verbatim>\<open>const {klass} = registry[name]\<close> reads a property of \<^verbatim>\<open>undefined\<close> when the
  registry has nothing under the name, which raises the language's \<^verbatim>\<open>TypeError\<close> before the
  test \<^verbatim>\<open>if (!klass)\<close> is reached; under a name that the registry object only inherits,
  \<^verbatim>\<open>klass\<close> is \<^verbatim>\<open>undefined\<close> and the test throws; a stored \<^verbatim>\<open>klass\<close> is a class object and
  never falsy. \<^verbatim>\<open>Object.create(klass.prototype)\<close> is an object with the prototype of that
  class and no own property, and the loop over \<^verbatim>\<open>Object.keys(properties)\<close> visits the
  entries of \<^verbatim>\<open>properties\<close> in order and assigns each to the result.
\<close>

type_synonym deserialize_hooks = "nat \<Rightarrow> jsval \<Rightarrow> error + jsval"

lemma size_snd_le_size_prod:
  "size_list (\<lambda>p. size (snd p)) ps \<le> size_list (size_prod (\<lambda>_. 0) size) (ps :: (string \<times> jsval) list)"
  by (induction ps) auto

lemma size_map_of_props:
  "map_of ps key = Some v \<Longrightarrow> size v \<le> size_list (\<lambda>p. size (snd p)) ps"
  by (induction ps) (auto split: if_splits)

lemma size_get_prop_object:
  assumes "VObject k ps = get_prop props key"
  shows "size_list (\<lambda>p. size (snd p)) ps < Suc (size_list (size_prod (\<lambda>_. 0) size) props)"
proof -
  from assms have "map_of props key = Some (VObject k ps)"
    by (auto simp: get_prop_def split: option.splits)
  from size_map_of_props [OF this]
  have "size (VObject k ps) \<le> size_list (\<lambda>p. size (snd p)) props" .
  with size_snd_le_size_prod [of ps] size_snd_le_size_prod [of props]
  show ?thesis by simp
qed

function deserialize :: "deserialize_hooks \<Rightarrow> registry \<Rightarrow> jsval \<Rightarrow> error + jsval"
and deserialize_items :: "deserialize_hooks \<Rightarrow> registry \<Rightarrow> jsval list \<Rightarrow> error + jsval list"
and deserialize_props :: "deserialize_hooks \<Rightarrow> registry \<Rightarrow> entry \<Rightarrow> (string \<times> jsval) list \<Rightarrow>
    klass option \<Rightarrow> (string \<times> jsval) list \<Rightarrow> error + klass option \<times> (string \<times> jsval) list"
where
  "deserialize D R (VArray xs) =
     (case deserialize_items D R xs of
        Inl e \<Rightarrow> Inl e
      | Inr ys \<Rightarrow> Inr (VArray ys))"
| "deserialize D R (VObject c props) =
     (let name = get_prop props ''name''; properties = get_prop props ''properties'' in
      if falsy name then Inl AnonymousClass
      else case name of
        VStr n \<Rightarrow>
          (case registry_get R n of
             Absent \<Rightarrow> Inl TypeError
           | Inherited \<Rightarrow> Inl (UnregisteredClass n)
           | Entry e \<Rightarrow>
               (case kdeserialize (klass e) of
                  Some h \<Rightarrow>
                    (case properties of
                       VObject c' ps \<Rightarrow> D h (get_prop ps ''_serialized'')
                     | VUndefined \<Rightarrow> Inl TypeError
                     | VNull \<Rightarrow> Inl TypeError
                     | _ \<Rightarrow> D h VUndefined)
                | None \<Rightarrow>
                    (case properties of
                       VObject c' ps \<Rightarrow>
                         (case deserialize_props D R e ps (Some (klass e)) [] of
                            Inl err \<Rightarrow> Inl err
                          | Inr (proto, result) \<Rightarrow> Inr (VObject proto result))
                     | VUndefined \<Rightarrow> Inl TypeError
                     | VNull \<Rightarrow> Inl TypeError
                     | _ \<Rightarrow> Inl IllTyped)))
      | _ \<Rightarrow> Inl IllTyped)"
| "deserialize D R (VFunction f) = Inl UnsupportedType"
| "deserialize D R (VSymbol s) = Inl UnsupportedType"
| "deserialize D R VNull = Inr VNull"
| "deserialize D R VUndefined = Inr VUndefined"
| "deserialize D R (VBool b) = Inr (VBool b)"
| "deserialize D R (VNum n) = Inr (VNum n)"
| "deserialize D R (VStr s) = Inr (VStr s)"
| "deserialize D R (VBoxedBool r b) = Inr (VBoxedBool r b)"
| "deserialize D R (VBoxedNum r n) = Inr (VBoxedNum r n)"
| "deserialize D R (VBoxedStr r s) = Inr (VBoxedStr r s)"
| "deserialize D R (VDate r t) = Inr (VDate r t)"
| "deserialize D R (VRegExp r s) = Inr (VRegExp r s)"
| "deserialize D R (VArrayBuffer b) = Inr (VArrayBuffer b)"
| "deserialize D R (VView v b) = Inr (VView v b)"
| "deserialize_items D R [] = Inr []"
| "deserialize_items D R (i # items) =
     (case deserialize D R i of
        Inl e \<Rightarrow> Inl e
      | Inr y \<Rightarrow>
          (case deserialize_items D R items of
             Inl e \<Rightarrow> Inl e
           | Inr ys \<Rightarrow> Inr (y # ys)))"
| "deserialize_props D R e [] proto result = Inr (proto, result)"
| "deserialize_props D R e ((key, v) # rest) proto result =
     (if key \<in> set (shallow e) then
        (case assign proto result key v of
           Inl err \<Rightarrow> Inl err
         | Inr (proto', result') \<Rightarrow> deserialize_props D R e rest proto' result')
      else case deserialize D R v of
             Inl err \<Rightarrow> Inl err
           | Inr d \<Rightarrow>
               (case assign proto result key d of
                  Inl err \<Rightarrow> Inl err
                | Inr (proto', result') \<Rightarrow> deserialize_props D R e rest proto' result'))"
  by pat_completeness auto
termination
  apply (relation "measure (case_sum (\<lambda>p. size (snd (snd p)))
            (case_sum (\<lambda>p. size_list size (snd (snd p)))
               (\<lambda>p. size_list (\<lambda>q. size (snd q)) (fst (snd (snd (snd p)))))))")
  apply (auto simp: size_get_prop_object)
  done

section \<open>A registry built as the module builds its own\<close>

text \<open>
  The module registers \<^verbatim>\<open>Object\<close> first and \<^verbatim>\<open>StyleExpression\<close> with
  \<^verbatim>\<open>{omit: ['_evaluator']}\<close>. \<open>registry0\<close> is the registry after these two calls on the
  empty registry; \<open>StructArray_klass\<close> stands for a class with both static hooks.
\<close>

definition StyleExpression_klass :: klass where
  "StyleExpression_klass = Klass 1 ''StyleExpression'' None None"

definition StructArray_klass :: klass where
  "StructArray_klass = Klass 2 ''StructArray'' (Some 0) (Some 0)"

definition registry0 :: registry where
  "registry0 =
     snd (register (snd (register Map.empty Object_klass no_options))
            StyleExpression_klass \<lparr>opt_omit = Some [''_evaluator''], opt_shallow = None\<rparr>)"

definition registry1 :: registry where
  "registry1 = snd (register registry0 StructArray_klass no_options)"

text \<open>Hooks for the examples: the serialize hook pushes nothing and returns the string
  \<^verbatim>\<open>'payload'\<close>; the deserialize hook returns an empty \<^verbatim>\<open>StructArray\<close>.\<close>

definition hooks0 :: serialize_hooks where
  "hooks0 h v ts = (Inr (VStr ''payload''), (case ts of None \<Rightarrow> [] | Some xs \<Rightarrow> xs))"

definition dhooks0 :: deserialize_hooks where
  "dhooks0 h v = Inr (VObject (Some StructArray_klass) [])"

text \<open>An array, and what \<^verbatim>\<open>serialize\<close> makes of it under \<open>registry0\<close>.\<close>

definition example_items :: "jsval list" where
  "example_items = [VNum 1, VObject (Some Object_klass) [(''a'', VStr ''x'')], VView 1 7]"

definition example_serialized :: "jsval list" where
  "example_serialized = [VNum 1, transport_record ''Object'' [(''a'', VStr ''x'')], VView 1 7]"



text \<open>
  What the walk of \<^verbatim>\<open>serialize\<close> reaches. \<open>walked_buffers R v\<close> lists, in the order of the
  walk, the buffer of every buffer and view that the walk visits in \<open>v\<close>: the elements of
  arrays, and the properties of instances of registered classes that are neither omitted
  nor shallow. \<open>hook_free R v\<close>: no object that the walk visits has a class with a static
  \<^verbatim>\<open>serialize\<close> hook.
\<close>

fun walked_buffers :: "registry \<Rightarrow> jsval \<Rightarrow> jsval list"
and walked_buffers_items :: "registry \<Rightarrow> jsval list \<Rightarrow> jsval list"
and walked_buffers_props :: "registry \<Rightarrow> entry \<Rightarrow> (string \<times> jsval) list \<Rightarrow> jsval list"
where
  "walked_buffers R (VArrayBuffer b) = [VArrayBuffer b]"
| "walked_buffers R (VView v b) = [VArrayBuffer b]"
| "walked_buffers R (VArray xs) = walked_buffers_items R xs"
| "walked_buffers R (VObject proto props) =
     (case constructor_of proto props of
        VFunction k \<Rightarrow> (case R (kname k) of Some e \<Rightarrow> walked_buffers_props R e props | None \<Rightarrow> [])
      | _ \<Rightarrow> [])"
| "walked_buffers R v = []"
| "walked_buffers_items R [] = []"
| "walked_buffers_items R (x # xs) = walked_buffers R x @ walked_buffers_items R xs"
| "walked_buffers_props R e [] = []"
| "walked_buffers_props R e ((key, p) # rest) =
     (if key \<in> set (omit e) \<or> key \<in> set (shallow e) then walked_buffers_props R e rest
      else walked_buffers R p @ walked_buffers_props R e rest)"

fun hook_free :: "registry \<Rightarrow> jsval \<Rightarrow> bool"
and hook_free_items :: "registry \<Rightarrow> jsval list \<Rightarrow> bool"
and hook_free_props :: "registry \<Rightarrow> entry \<Rightarrow> (string \<times> jsval) list \<Rightarrow> bool"
where
  "hook_free R (VArray xs) = hook_free_items R xs"
| "hook_free R (VObject proto props) =
     (case constructor_of proto props of
        VFunction k \<Rightarrow>
          kserialize k = None \<and>
          (case R (kname k) of Some e \<Rightarrow> hook_free_props R e props | None \<Rightarrow> True)
      | _ \<Rightarrow> True)"
| "hook_free R v = True"
| "hook_free_items R [] = True"
| "hook_free_items R (x # xs) = (hook_free R x \<and> hook_free_items R xs)"
| "hook_free_props R e [] = True"
| "hook_free_props R e ((key, p) # rest) =
     ((key \<in> set (omit e) \<or> key \<in> set (shallow e) \<or> hook_free R p) \<and> hook_free_props R e rest)"

text \<open>
  A registry with a class that has a shallow property, and an instance of it that reaches
  buffer 7 four times: through two views in properties of its own, through a view in an
  array inside a plain object, and as the buffer itself under the shallow key.
\<close>

definition Bucket_klass :: klass where
  "Bucket_klass = Klass 3 ''Bucket'' None None"

definition registry2 :: registry where
  "registry2 = snd (register registry0 Bucket_klass \<lparr>opt_omit = None, opt_shallow = Some [''raw'']\<rparr>)"

definition example_bucket :: jsval where
  "example_bucket =
     VObject (Some Bucket_klass)
       [(''a'', VView 1 7),
        (''raw'', VArrayBuffer 7),
        (''b'', VView 2 7),
        (''more'', VObject (Some Object_klass) [(''list'', VArray [VView 3 7, VArrayBuffer 8])])]"

definition example_bucket_serialized :: jsval where
  "example_bucket_serialized =
     transport_record ''Bucket''
       [(''a'', VView 1 7),
        (''raw'', VArrayBuffer 7),
        (''b'', VView 2 7),
        (''more'', transport_record ''Object'' [(''list'', VArray [VView 3 7, VArrayBuffer 8])])]"

text \<open>
  The values the round trip is stated for. \<open>hooks_inverse\<close>: on the instance \<open>x\<close>, whatever
  the transferables, the static \<^verbatim>\<open>serialize\<close> hook returns a payload from which the static
  \<^verbatim>\<open>deserialize\<close> hook returns \<open>x\<close>. \<open>serializable\<close>: every object met by the walk of
  \<^verbatim>\<open>serialize\<close> has the prototype of a class that is itself in the registry under its
  non-empty name, and no own property called \<^verbatim>\<open>constructor\<close>; either the class has both
  static hooks and they are inverse on the object, or it has none, the object has no own
  property called \<^verbatim>\<open>hasOwnProperty\<close>, and every property of it that is not omitted is not
  called \<^verbatim>\<open>__proto__\<close> and is shallow or again such a value, a scalar, a binary value or an
  array of such values. Functions and symbols are not such values.
\<close>

definition hooks_inverse :: "serialize_hooks \<Rightarrow> deserialize_hooks \<Rightarrow> nat \<Rightarrow> nat \<Rightarrow> jsval \<Rightarrow> bool" where
  "hooks_inverse H D h h' x = (\<forall>ts. \<exists>payload xs. H h x ts = (Inr payload, xs) \<and> D h' payload = Inr x)"

fun serializable :: "serialize_hooks \<Rightarrow> deserialize_hooks \<Rightarrow> registry \<Rightarrow> jsval \<Rightarrow> bool"
and serializable_items :: "serialize_hooks \<Rightarrow> deserialize_hooks \<Rightarrow> registry \<Rightarrow> jsval list \<Rightarrow> bool"
and serializable_props :: "serialize_hooks \<Rightarrow> deserialize_hooks \<Rightarrow> registry \<Rightarrow> entry \<Rightarrow> (string \<times> jsval) list \<Rightarrow> bool"
where
  "serializable H D R (VArray xs) = serializable_items H D R xs"
| "serializable H D R (VObject proto props) =
     (case proto of
        None \<Rightarrow> False
      | Some k \<Rightarrow>
          map_of props ''constructor'' = None \<and> kname k \<noteq> [] \<and>
          (case R (kname k) of
             None \<Rightarrow> False
           | Some e \<Rightarrow>
               klass e = k \<and>
               (case kserialize k of
                  Some h \<Rightarrow>
                    (case kdeserialize k of
                       Some h' \<Rightarrow> hooks_inverse H D h h' (VObject proto props)
                     | None \<Rightarrow> False)
                | None \<Rightarrow>
                    kdeserialize k = None \<and> map_of props ''hasOwnProperty'' = None \<and>
                    distinct (map fst props) \<and> serializable_props H D R e props)))"
| "serializable H D R (VFunction f) = False"
| "serializable H D R (VSymbol s) = False"
| "serializable H D R v = True"
| "serializable_items H D R [] = True"
| "serializable_items H D R (x # xs) = (serializable H D R x \<and> serializable_items H D R xs)"
| "serializable_props H D R e [] = True"
| "serializable_props H D R e ((key, p) # rest) =
     ((key \<in> set (omit e) \<or>
       (key \<noteq> ''__proto__'' \<and> (key \<in> set (shallow e) \<or> serializable H D R p))) \<and>
      serializable_props H D R e rest)"

text \<open>
  The value a round trip is expected to give, in the words of the specification: the
  value itself, without the properties in the omit list of its class, and so on through
  arrays and through the properties that are not shallow. An instance of a class with a
  static \<^verbatim>\<open>serialize\<close> hook is left as it is: its representation is the hooks'.
\<close>

fun without_omitted :: "registry \<Rightarrow> jsval \<Rightarrow> jsval"
and without_omitted_items :: "registry \<Rightarrow> jsval list \<Rightarrow> jsval list"
and without_omitted_props :: "registry \<Rightarrow> entry \<Rightarrow> (string \<times> jsval) list \<Rightarrow> (string \<times> jsval) list"
where
  "without_omitted R (VArray xs) = VArray (without_omitted_items R xs)"
| "without_omitted R (VObject proto props) =
     (case proto of
        None \<Rightarrow> VObject proto props
      | Some k \<Rightarrow>
          (case kserialize k of
             Some h \<Rightarrow> VObject proto props
           | None \<Rightarrow>
               (case R (kname k) of
                  None \<Rightarrow> VObject proto props
                | Some e \<Rightarrow> VObject proto (without_omitted_props R e props))))"
| "without_omitted R v = v"
| "without_omitted_items R [] = []"
| "without_omitted_items R (x # xs) = without_omitted R x # without_omitted_items R xs"
| "without_omitted_props R e [] = []"
| "without_omitted_props R e ((key, p) # rest) =
     (if key \<in> set (omit e) then without_omitted_props R e rest
      else if key \<in> set (shallow e) then (key, p) # without_omitted_props R e rest
      else (key, without_omitted R p) # without_omitted_props R e rest)"

text \<open>A \<^verbatim>\<open>StyleExpression\<close> whose omitted \<^verbatim>\<open>_evaluator\<close> is a function, with a plain object and
  a view below it, and with an empty \<^verbatim>\<open>StructArray\<close>, which the hooks of the examples give
  back as it is.\<close>

definition example_expression :: jsval where
  "example_expression =
     VObject (Some StyleExpression_klass)
       [(''expression'', VArray [VStr ''get'', VObject (Some Object_klass) [(''data'', VView 1 7)]]),
        (''_evaluator'', VFunction Object_klass),
        (''layout'', VObject (Some StructArray_klass) [])]"

definition example_expression_restored :: jsval where
  "example_expression_restored =
     VObject (Some StyleExpression_klass)
       [(''expression'', VArray [VStr ''get'', VObject (Some Object_klass) [(''data'', VView 1 7)]]),
        (''layout'', VObject (Some StructArray_klass) [])]"

section \<open>serialize on a store\<close>





























section \<open>Facts about the registry\<close>

lemma registry_get_Some: "R n = Some e \<Longrightarrow> registry_get R n = Entry e"
  by (simp add: registry_get_def)

lemma registry_get_Absent:
  "R n = None \<Longrightarrow> n \<notin> set object_prototype_names \<Longrightarrow> registry_get R n = Absent"
  by (simp add: registry_get_def)

lemma registry_get_Entry: "registry_get R n = Entry e \<Longrightarrow> R n = Some e"
  by (auto simp: registry_get_def split: option.splits if_splits)

lemma registry_get_Inherited: "registry_get R n = Inherited \<Longrightarrow> R n = None"
  by (auto simp: registry_get_def split: option.splits if_splits)

lemma registry_get_not_Absent:
  "(registry_get R n \<noteq> Absent) = (R n \<noteq> None \<or> n \<in> set object_prototype_names)"
  by (auto simp: registry_get_def split: option.splits)

lemma registry0_Object:
  "registry0 ''Object'' = Some \<lparr>klass = Object_klass, omit = [], shallow = []\<rparr>"
  by (simp add: registry0_def register_def registry_get_def object_prototype_names_def Let_def no_options_def
      Object_klass_def StyleExpression_klass_def)

lemma registry0_StyleExpression:
  "registry0 ''StyleExpression'' = Some \<lparr>klass = StyleExpression_klass, omit = [''_evaluator''], shallow = []\<rparr>"
  by (simp add: registry0_def register_def registry_get_def object_prototype_names_def Let_def no_options_def
      Object_klass_def StyleExpression_klass_def)

lemma registry0_other:
  "n \<noteq> ''Object'' \<Longrightarrow> n \<noteq> ''StyleExpression'' \<Longrightarrow> registry0 n = None"
  by (simp add: registry0_def register_def registry_get_def object_prototype_names_def Let_def no_options_def
      Object_klass_def StyleExpression_klass_def)

lemma registry1_StructArray:
  "registry1 ''StructArray'' = Some \<lparr>klass = StructArray_klass, omit = [], shallow = []\<rparr>"
  by (simp add: registry1_def register_def registry_get_def object_prototype_names_def Let_def no_options_def
      StructArray_klass_def registry0_other)

lemma registry1_Object:
  "registry1 ''Object'' = Some \<lparr>klass = Object_klass, omit = [], shallow = []\<rparr>"
  by (simp add: registry1_def register_def registry_get_def object_prototype_names_def Let_def
      StructArray_klass_def registry0_other registry0_Object)

lemma registry1_StyleExpression:
  "registry1 ''StyleExpression'' = Some \<lparr>klass = StyleExpression_klass, omit = [''_evaluator''], shallow = []\<rparr>"
  by (simp add: registry1_def register_def registry_get_def object_prototype_names_def Let_def
      StructArray_klass_def registry0_other registry0_StyleExpression)

lemma registry2_Bucket:
  "registry2 ''Bucket'' = Some \<lparr>klass = Bucket_klass, omit = [], shallow = [''raw'']\<rparr>"
  by (simp add: registry2_def register_def registry_get_def object_prototype_names_def Let_def
      Bucket_klass_def registry0_other)

lemma registry2_Object:
  "registry2 ''Object'' = Some \<lparr>klass = Object_klass, omit = [], shallow = []\<rparr>"
  by (simp add: registry2_def register_def registry_get_def object_prototype_names_def Let_def
      Bucket_klass_def registry0_other registry0_Object)

section \<open>Facts about the object branch of serialize\<close>

lemma serialize_instance:
  assumes "constructor_of proto props = VFunction k" and "kname k \<noteq> []"
  shows "serialize H R (VObject proto props) ts =
     (case registry_get R (kname k) of
        Absent \<Rightarrow> (Inl (UnregisteredClass (kname k)), ts)
      | registered \<Rightarrow>
          (case kserialize k of
             Some h \<Rightarrow>
               (case H h (VObject proto props) ts of
                  (Inl err, xs) \<Rightarrow> (Inl err, after_hook ts xs)
                | (Inr payload, xs) \<Rightarrow>
                    (Inr (transport_record (kname k) [(''_serialized'', payload)]), after_hook ts xs))
           | None \<Rightarrow>
               (case serialize_props H R registered (has_own_property proto props) props
                       (Some Object_klass) [] ts of
                  (Inl err, ts') \<Rightarrow> (Inl err, ts')
                | (Inr (pproto, properties), ts') \<Rightarrow>
                    (Inr (record_of (kname k) pproto properties), ts'))))"
  using assms by (simp add: Let_def)

lemma serialize_object_returns:
  "serialize H R (VObject proto props) ts = (Inr t, ts') \<Longrightarrow>
   \<exists>k. constructor_of proto props = VFunction k \<and> kname k \<noteq> []"
  by (cases "constructor_of proto props")
     (auto simp: serialize.simps(4) Let_def split: if_splits sum.splits)

lemma constructor_of_instance:
  "map_of props ''constructor'' = None \<Longrightarrow> constructor_of (Some k) props = VFunction k"
  by (simp add: constructor_of_def)

lemma assign_ordinary:
  "key \<noteq> ''__proto__'' \<Longrightarrow> assign proto ps key v = Inr (proto, set_prop ps key v)"
  by simp

lemma deserialize_record:
  assumes "n \<noteq> []"
  shows "deserialize D R (record_of n pproto ps) =
     (case registry_get R n of
        Absent \<Rightarrow> Inl TypeError
      | Inherited \<Rightarrow> Inl (UnregisteredClass n)
      | Entry e \<Rightarrow>
          (case kdeserialize (klass e) of
             Some h \<Rightarrow> D h (get_prop ps ''_serialized'')
           | None \<Rightarrow>
               (case deserialize_props D R e ps (Some (klass e)) [] of
                  Inl err \<Rightarrow> Inl err
                | Inr (proto, result) \<Rightarrow> Inr (VObject proto result))))"
  using assms by (simp add: record_of_def get_prop_def Let_def split: found.splits option.splits)

declare serialize.simps(4) [simp del]
declare assign.simps [simp del]


section \<open>Claims\<close>

text \<open>
  C4. Once \<^verbatim>\<open>register\<close> has succeeded for a class, a second call with a class of the same
  name (the same class or another one, with any options) fails with the
  already-registered assertion, the registry after the failed call is the registry before
  it, and its entry for the name is the descriptor the first call stored: the first
  class, its omit list and its shallow list (each empty when the option was not given).
\<close>

theorem register_duplicate_rejected:
  assumes "register R k options = (None, R1)" and "kname k' = kname k"
  shows "register R1 k' options' = (Some (AlreadyRegistered (kname k)), R1)
         \<and> R1 (kname k) = Some \<lparr>klass = k,
               omit = (case opt_omit options of None \<Rightarrow> [] | Some xs \<Rightarrow> xs),
               shallow = (case opt_shallow options of None \<Rightarrow> [] | Some xs \<Rightarrow> xs)\<rparr>"
  using assms by (auto simp: register_def registry_get_def Let_def split: if_splits)

theorem register_duplicate_rejected_witness:
  "register Map.empty StyleExpression_klass \<lparr>opt_omit = Some [''_evaluator''], opt_shallow = None\<rparr>
     = (None, [''StyleExpression'' \<mapsto> \<lparr>klass = StyleExpression_klass, omit = [''_evaluator''], shallow = []\<rparr>])
   \<and> register [''StyleExpression'' \<mapsto> \<lparr>klass = StyleExpression_klass, omit = [''_evaluator''], shallow = []\<rparr>]
        (Klass 9 ''StyleExpression'' None None) no_options
     = (Some (AlreadyRegistered ''StyleExpression''),
        [''StyleExpression'' \<mapsto> \<lparr>klass = StyleExpression_klass, omit = [''_evaluator''], shallow = []\<rparr>])"
proof -
  have first: "register Map.empty StyleExpression_klass \<lparr>opt_omit = Some [''_evaluator''], opt_shallow = None\<rparr>
     = (None, [''StyleExpression'' \<mapsto> \<lparr>klass = StyleExpression_klass, omit = [''_evaluator''], shallow = []\<rparr>])"
    by (simp add: register_def registry_get_def object_prototype_names_def Let_def StyleExpression_klass_def)
  have same: "kname (Klass 9 ''StyleExpression'' None None) = kname StyleExpression_klass"
    by (simp add: StyleExpression_klass_def)
  from register_duplicate_rejected [OF first same, of no_options] first
  show ?thesis by (simp add: StyleExpression_klass_def)
qed

text \<open>
  C6. \<^verbatim>\<open>null\<close>, a boolean, a number, a string, a date and a regular expression are each
  returned by \<^verbatim>\<open>serialize\<close> as the very same value, with the transferables untouched, and
  by \<^verbatim>\<open>deserialize\<close> as the very same value.
\<close>

theorem scalar_passthrough:
  "serialize H R VNull ts = (Inr VNull, ts) \<and> deserialize D R VNull = Inr VNull
   \<and> serialize H R (VBool b) ts = (Inr (VBool b), ts) \<and> deserialize D R (VBool b) = Inr (VBool b)
   \<and> serialize H R (VNum n) ts = (Inr (VNum n), ts) \<and> deserialize D R (VNum n) = Inr (VNum n)
   \<and> serialize H R (VStr s) ts = (Inr (VStr s), ts) \<and> deserialize D R (VStr s) = Inr (VStr s)
   \<and> serialize H R (VDate r t) ts = (Inr (VDate r t), ts) \<and> deserialize D R (VDate r t) = Inr (VDate r t)
   \<and> serialize H R (VRegExp r s) ts = (Inr (VRegExp r s), ts) \<and> deserialize D R (VRegExp r s) = Inr (VRegExp r s)"
  by simp

text \<open>
  C8, as the code has it. An object whose \<^verbatim>\<open>constructor\<close> can be asked for its \<^verbatim>\<open>name\<close> (it
  is neither \<^verbatim>\<open>undefined\<close> nor \<^verbatim>\<open>null\<close>) and has a falsy one (a function with the empty name,
  or a value with no \<^verbatim>\<open>name\<close> at all) makes \<^verbatim>\<open>serialize\<close> fail with the anonymous-class
  error, and nothing is pushed; a record whose \<^verbatim>\<open>name\<close> is missing or is the empty string
  makes \<^verbatim>\<open>deserialize\<close> fail with the anonymous-class error.
\<close>

theorem anonymous_rejected:
  "(class_name (constructor_of proto props) = Inr name \<and> falsy name \<longrightarrow>
      serialize H R (VObject proto props) ts = (Inl AnonymousClass, ts))
   \<and> (get_prop props ''name'' = VUndefined \<or> get_prop props ''name'' = VStr [] \<longrightarrow>
        deserialize D R (VObject proto props) = Inl AnonymousClass)"
  by (auto simp: serialize.simps(4) Let_def)

theorem anonymous_rejected_witness:
  "class_name (constructor_of (Some (Klass 5 [] None None)) [(''x'', VNum 1)]) = Inr (VStr [])
   \<and> falsy (VStr [])
   \<and> serialize hooks0 registry0 (VObject (Some (Klass 5 [] None None)) [(''x'', VNum 1)]) (Some [])
       = (Inl AnonymousClass, Some [])
   \<and> get_prop [(''properties'', VObject (Some Object_klass) [])] ''name'' = VUndefined
   \<and> deserialize dhooks0 registry0 (VObject (Some Object_klass) [(''properties'', VObject (Some Object_klass) [])])
       = Inl AnonymousClass"
proof -
  have a: "class_name (constructor_of (Some (Klass 5 [] None None)) [(''x'', VNum 1)]) = Inr (VStr [])"
    by (simp add: constructor_of_def)
  have f: "falsy (VStr [])" by simp
  have b: "get_prop [(''properties'', VObject (Some Object_klass) [])] ''name'' = VUndefined"
    by (simp add: get_prop_def)
  from anonymous_rejected [where proto = "Some (Klass 5 [] None None)" and H = hooks0 and R = registry0
                              and props = "[(''x'', VNum 1)]" and ts = "Some []" and name = "VStr []"]
       anonymous_rejected [where proto = "Some Object_klass" and D = dhooks0 and R = registry0
                              and props = "[(''properties'', VObject (Some Object_klass) [])]"]
       a f b
  show ?thesis by blast
qed

text \<open>
  C8 as stated fails on an object without a constructor, which has no discoverable name:
  for \<^verbatim>\<open>Object.create(null)\<close> the read of \<^verbatim>\<open>klass.name\<close> raises the \<^verbatim>\<open>TypeError\<close> of the
  language before the test of the name.
\<close>

theorem no_constructor_raises_TypeError:
  "constructor_of None [] = VUndefined
   \<and> serialize hooks0 registry0 (VObject None []) (Some []) = (Inl TypeError, Some [])
   \<and> serialize hooks0 registry0 (VObject None []) (Some []) \<noteq> (Inl AnonymousClass, Some [])"
  by (simp add: serialize.simps(4) constructor_of_def)

text \<open>
  The \<^verbatim>\<open>serialize\<close> half of the unregistered-class rejection: an instance of a class under whose
  non-empty name the registry has nothing is rejected with the unregistered-class error and nothing is pushed.
\<close>

lemma serialize_unregistered:
  "constructor_of proto props = VFunction k \<Longrightarrow> kname k \<noteq> [] \<Longrightarrow>
   registry_get R (kname k) = Absent \<Longrightarrow>
   serialize H R (VObject proto props) ts = (Inl (UnregisteredClass (kname k)), ts)"
  by (simp add: serialize_instance)

text \<open>
  C2, the \<^verbatim>\<open>deserialize\<close> half. On the record \<^verbatim>\<open>{name: 'Nope', properties: {}}\<close>, with
  \<^verbatim>\<open>Nope\<close> never registered, \<^verbatim>\<open>deserialize\<close> does fail, but with the \<^verbatim>\<open>TypeError\<close> of
  \<^verbatim>\<open>const {klass} = registry[name]\<close> and not with the unregistered-class error of the
  test that follows it.
\<close>

theorem deserialize_unregistered_raises_TypeError:
  "registry0 ''Nope'' = None
   \<and> deserialize dhooks0 registry0 (transport_record ''Nope'' []) = Inl TypeError
   \<and> deserialize dhooks0 registry0 (transport_record ''Nope'' []) \<noteq> Inl (UnregisteredClass ''Nope'')"
  by (simp add: registry0_other transport_record_def deserialize_record registry_get_def
      object_prototype_names_def)



subsection \<open>Arrays, element by element\<close>

lemma serialize_items_acc:
  "serialize_items H R xs acc ts =
     (case serialize_items H R xs [] ts of
        (Inl e, t) \<Rightarrow> (Inl e, t)
      | (Inr zs, t) \<Rightarrow> (Inr (acc @ zs), t))"
proof (induction xs arbitrary: acc ts)
  case Nil
  show ?case by simp
next
  case (Cons x xs)
  show ?case
  proof (cases "serialize H R x ts")
    case (Pair r t)
    show ?thesis
    proof (cases r)
      case (Inl e)
      with Pair show ?thesis by simp
    next
      case (Inr s)
      with Pair Cons [of "acc @ [s]" t] Cons [of "[s]" t] show ?thesis
        by (auto split: prod.splits sum.splits)
    qed
  qed
qed

lemma serialize_items_Cons:
  "serialize_items H R (x # xs) [] ts =
     (case serialize H R x ts of
        (Inl e, t) \<Rightarrow> (Inl e, t)
      | (Inr y, t) \<Rightarrow>
          (case serialize_items H R xs [] t of
             (Inl e, t') \<Rightarrow> (Inl e, t')
           | (Inr ys, t') \<Rightarrow> (Inr (y # ys), t')))"
proof (cases "serialize H R x ts")
  case (Pair r t)
  show ?thesis
  proof (cases r)
    case (Inl e)
    with Pair show ?thesis by simp
  next
    case (Inr y)
    with Pair serialize_items_acc [of H R xs "[y]" t] show ?thesis
      by (simp split: prod.splits sum.splits)
  qed
qed

lemma serialize_items_nth:
  "serialize_items H R xs [] ts = (Inr ys, ts') \<Longrightarrow>
   length ys = length xs \<and>
   (\<forall>i<length xs. fst (serialize H R (xs ! i) (snd (serialize_items H R (take i xs) [] ts))) = Inr (ys ! i))"
proof (induction xs arbitrary: ts ys)
  case Nil
  then show ?case by simp
next
  case (Cons x xs)
  from Cons.prems obtain y t zs where
    x: "serialize H R x ts = (Inr y, t)" and
    rest: "serialize_items H R xs [] t = (Inr zs, ts')" and
    ys: "ys = y # zs"
    by (auto simp: serialize_items_Cons simp del: serialize.simps serialize_items.simps split: prod.splits sum.splits)
  from Cons.IH [OF rest] have len: "length zs = length xs"
    and nth: "\<And>i. i < length xs \<Longrightarrow>
       fst (serialize H R (xs ! i) (snd (serialize_items H R (take i xs) [] t))) = Inr (zs ! i)"
    by auto
  have "fst (serialize H R ((x # xs) ! i) (snd (serialize_items H R (take i (x # xs)) [] ts))) = Inr (ys ! i)"
    if "i < length (x # xs)" for i
  proof (cases i)
    case 0
    with x ys show ?thesis by simp
  next
    case (Suc j)
    with that have j: "j < length xs" by simp
    have "snd (serialize_items H R (x # take j xs) [] ts) = snd (serialize_items H R (take j xs) [] t)"
      using x by (auto simp: serialize_items_Cons simp del: serialize.simps serialize_items.simps split: prod.splits sum.splits)
    with nth [OF j] Suc ys show ?thesis by simp
  qed
  with len ys show ?case by simp
qed

lemma deserialize_items_nth:
  "deserialize_items D R ys = Inr zs \<Longrightarrow>
   length zs = length ys \<and> (\<forall>i<length ys. deserialize D R (ys ! i) = Inr (zs ! i))"
proof (induction ys arbitrary: zs)
  case Nil
  then show ?case by simp
next
  case (Cons y ys)
  from Cons.prems obtain d ds where
    d: "deserialize D R y = Inr d" and ds: "deserialize_items D R ys = Inr ds" and zs: "zs = d # ds"
    by (auto split: sum.splits)
  from Cons.IH [OF ds] d zs show ?case
    by (auto simp: nth_Cons split: nat.splits)
qed

text \<open>
  C7. The empty array is serialized to the empty array. When \<^verbatim>\<open>serialize\<close> of an array
  returns, it returns an array of the same length whose element \<open>i\<close> is the result of
  \<^verbatim>\<open>serialize\<close> on element \<open>i\<close> of the input (run with the transferables as the elements
  before it left them). When \<^verbatim>\<open>deserialize\<close> of an array returns, it returns an array of
  the same length whose element \<open>i\<close> is \<^verbatim>\<open>deserialize\<close> of element \<open>i\<close>. Arrays are values
  in the model, so that the result is a new array object is not expressed.
\<close>

theorem sequence_order_preserved:
  "serialize H R (VArray []) ts = (Inr (VArray []), ts)
   \<and> (serialize H R (VArray xs) ts = (Inr r, ts') \<longrightarrow>
        (\<exists>ys. r = VArray ys \<and> length ys = length xs \<and>
           (\<forall>i<length xs.
              fst (serialize H R (xs ! i) (snd (serialize H R (VArray (take i xs)) ts))) = Inr (ys ! i))))
   \<and> (deserialize D R (VArray ys) = Inr r' \<longrightarrow>
        (\<exists>zs. r' = VArray zs \<and> length zs = length ys \<and>
           (\<forall>i<length ys. deserialize D R (ys ! i) = Inr (zs ! i))))"
proof -
  have snd_array: "snd (serialize H R (VArray as) ts) = snd (serialize_items H R as [] ts)" for as
    by (simp split: prod.splits sum.splits)
  have a: "\<exists>ys. r = VArray ys \<and> length ys = length xs \<and>
           (\<forall>i<length xs.
              fst (serialize H R (xs ! i) (snd (serialize H R (VArray (take i xs)) ts))) = Inr (ys ! i))"
    if "serialize H R (VArray xs) ts = (Inr r, ts')"
  proof -
    from that obtain ys where ys: "serialize_items H R xs [] ts = (Inr ys, ts')" and r: "r = VArray ys"
      by (auto split: prod.splits sum.splits)
    from serialize_items_nth [OF ys] r show ?thesis
      unfolding snd_array by blast
  qed
  have b: "\<exists>zs. r' = VArray zs \<and> length zs = length ys \<and>
           (\<forall>i<length ys. deserialize D R (ys ! i) = Inr (zs ! i))"
    if "deserialize D R (VArray ys) = Inr r'"
  proof -
    from that obtain zs where zs: "deserialize_items D R ys = Inr zs" and r: "r' = VArray zs"
      by (auto split: sum.splits)
    from deserialize_items_nth [OF zs] r show ?thesis by blast
  qed
  from a b show ?thesis by simp
qed


theorem sequence_order_preserved_witness:
  "serialize hooks0 registry0 (VArray example_items) (Some []) = (Inr (VArray example_serialized), Some [VArrayBuffer 7])
   \<and> deserialize dhooks0 registry0 (VArray example_serialized) = Inr (VArray example_items)
   \<and> (\<exists>ys. VArray example_serialized = VArray ys \<and> length ys = length example_items \<and>
         (\<forall>i<length example_items.
            fst (serialize hooks0 registry0 (example_items ! i)
                  (snd (serialize hooks0 registry0 (VArray (take i example_items)) (Some [])))) = Inr (ys ! i)))
   \<and> (\<exists>zs. VArray example_items = VArray zs \<and> length zs = length example_serialized \<and>
         (\<forall>i<length example_serialized. deserialize dhooks0 registry0 (example_serialized ! i) = Inr (zs ! i)))"
proof -
  have s: "serialize hooks0 registry0 (VArray example_items) (Some [])
             = (Inr (VArray example_serialized), Some [VArrayBuffer 7])"
    using registry0_Object
    by (simp add: example_items_def example_serialized_def transport_record_def serialize_instance
        constructor_of_def has_own_property_def registry_get_Some Object_klass_def push_def assign.simps)
  have d: "deserialize dhooks0 registry0 (VArray example_serialized) = Inr (VArray example_items)"
    using registry0_Object
    by (simp add: example_items_def example_serialized_def transport_record_def deserialize_record
        registry_get_Some Object_klass_def assign.simps)
  note t = sequence_order_preserved [of hooks0 registry0 "Some []" example_items "VArray example_serialized"
      "Some [VArrayBuffer 7]" dhooks0 example_serialized "VArray example_items"]
  from t have "serialize hooks0 registry0 (VArray example_items) (Some [])
                 = (Inr (VArray example_serialized), Some [VArrayBuffer 7]) \<longrightarrow>
       (\<exists>ys. VArray example_serialized = VArray ys \<and> length ys = length example_items \<and>
         (\<forall>i<length example_items.
            fst (serialize hooks0 registry0 (example_items ! i)
                  (snd (serialize hooks0 registry0 (VArray (take i example_items)) (Some [])))) = Inr (ys ! i)))"
    by (rule conjunct1 [OF conjunct2])
  then have a: "\<exists>ys. VArray example_serialized = VArray ys \<and> length ys = length example_items \<and>
         (\<forall>i<length example_items.
            fst (serialize hooks0 registry0 (example_items ! i)
                  (snd (serialize hooks0 registry0 (VArray (take i example_items)) (Some [])))) = Inr (ys ! i))"
    using s by (rule mp)
  from t have "deserialize dhooks0 registry0 (VArray example_serialized) = Inr (VArray example_items) \<longrightarrow>
       (\<exists>zs. VArray example_items = VArray zs \<and> length zs = length example_serialized \<and>
         (\<forall>i<length example_serialized. deserialize dhooks0 registry0 (example_serialized ! i) = Inr (zs ! i)))"
    by (rule conjunct2 [OF conjunct2])
  then have b: "\<exists>zs. VArray example_items = VArray zs \<and> length zs = length example_serialized \<and>
         (\<forall>i<length example_serialized. deserialize dhooks0 registry0 (example_serialized ! i) = Inr (zs ! i))"
    using d by (rule mp)
  from s d a b show ?thesis by (intro conjI)
qed

subsection \<open>What the loop of deserialize assigns\<close>

lemma set_prop_fresh:
  "key \<notin> fst ` set ps \<Longrightarrow> set_prop ps key v = ps @ [(key, v)]"
  by (induction ps) auto







subsection \<open>The buffers pushed along the walk\<close>

lemma serialize_pushes_walked:
  "hook_free R v \<Longrightarrow> serialize H R v ts = (Inr t, ts') \<Longrightarrow>
     ts' = map_option (\<lambda>old. old @ walked_buffers R v) ts"
  "hook_free_items R xs \<Longrightarrow> serialize_items H R xs acc ts = (Inr ys, ts') \<Longrightarrow>
     ts' = map_option (\<lambda>old. old @ walked_buffers_items R xs) ts"
  "(case registered of Entry e \<Rightarrow> hook_free_props R e props | _ \<Rightarrow> True) \<Longrightarrow>
   serialize_props H R registered g props pproto pacc ts = (Inr r, ts') \<Longrightarrow>
     ts' = map_option (\<lambda>old. old @ (case registered of Entry e \<Rightarrow> walked_buffers_props R e props | _ \<Rightarrow> [])) ts"
proof (induction H R v ts and H R xs acc ts and H R registered g props pproto pacc ts
       arbitrary: t ts' and ys ts' and r ts'
       rule: serialize_serialize_items_serialize_props.induct)
  case (1 H R b ts)
  then show ?case by (auto simp: push_def split: option.splits)
next
  case (2 H R v b ts)
  then show ?case by (auto simp: push_def split: option.splits)
next
  case (3 H R xs ts)
  from 3(3) obtain ys where "serialize_items H R xs [] ts = (Inr ys, ts')"
    by (auto split: prod.splits sum.splits)
  from 3(1) [OF _ this] 3(2) show ?case by simp
next
  case (4 H R proto props ts)
  from serialize_object_returns [OF "4.prems"(2)]
  obtain k where c: "constructor_of proto props = VFunction k" and name: "kname k \<noteq> []"
    by blast
  from "4.prems"(1) c have no_hook: "kserialize k = None" by simp
  note run = "4.prems"(2) [unfolded serialize_instance [OF c name]]
  show ?case
  proof (cases "registry_get R (kname k)")
    case Absent
    with run show ?thesis by simp
  next
    case Inherited
    then have none: "R (kname k) = None" by (rule registry_get_Inherited)
    from run Inherited no_hook obtain pp ps where
      props: "serialize_props H R Inherited (has_own_property proto props) props (Some Object_klass) [] ts
                = (Inr (pp, ps), ts')"
      by (auto split: prod.splits sum.splits)
    have "ts' = map_option (\<lambda>old. old @ (case Inherited of Entry e \<Rightarrow> walked_buffers_props R e props | _ \<Rightarrow> [])) ts"
      using "4.IH" c name Inherited no_hook props by simp
    with c none show ?thesis by (cases ts) simp_all
  next
    case (Entry e)
    then have some: "R (kname k) = Some e" by (rule registry_get_Entry)
    from run Entry no_hook obtain pp ps where
      props: "serialize_props H R (Entry e) (has_own_property proto props) props (Some Object_klass) [] ts
                = (Inr (pp, ps), ts')"
      by (auto split: prod.splits sum.splits)
    from "4.prems"(1) c some have hf: "hook_free_props R e props" by simp
    have "ts' = map_option (\<lambda>old. old @ (case Entry e of Entry e \<Rightarrow> walked_buffers_props R e props | _ \<Rightarrow> [])) ts"
      using "4.IH" c name Entry no_hook props hf by simp
    with c some show ?thesis by simp
  qed
next
  case (9 H R item items serialized ts)
  from 9(4) obtain s t1 where
    s: "serialize H R item ts = (Inr s, t1)"
    and rest: "serialize_items H R items (serialized @ [s]) t1 = (Inr ys, ts')"
    by (auto split: prod.splits sum.splits)
  from 9(3) have hf: "hook_free R item" "hook_free_items R items" by simp_all
  from 9(1) [OF hf(1) s] have t1: "t1 = map_option (\<lambda>old. old @ walked_buffers R item) ts" .
  from 9(2) [OF _ _ hf(2) rest] s
  have "ts' = map_option (\<lambda>old. old @ walked_buffers_items R items) t1" by simp
  with t1 show ?case by (cases ts) simp_all
next
  case (11 H R registered g key property rest pproto properties ts)
  from "11.prems"(2) have g: "g = Builtin" by (cases g) simp_all
  from "11.prems"(2) g obtain e where e: "registered = Entry e" by (cases registered) simp_all
  from "11.prems"(1) e have hf: "key \<in> set (omit e) \<or> key \<in> set (shallow e) \<or> hook_free R property"
    and hf_rest: "hook_free_props R e rest" by simp_all
  show ?case
  proof (cases "key \<in> set (omit e)")
    case True
    from "11.prems"(2) g e True have run: "serialize_props H R (Entry e) Builtin rest pproto properties ts = (Inr r, ts')"
      by simp
    have "ts' = map_option (\<lambda>old. old @ (case Entry e of Entry e \<Rightarrow> walked_buffers_props R e rest | _ \<Rightarrow> [])) ts"
      using "11.IH"(1) g e True run hf_rest by simp
    with e True show ?thesis by simp
  next
    case not_omitted: False
    show ?thesis
    proof (cases "key \<in> set (shallow e)")
      case True
      from "11.prems"(2) g e not_omitted True obtain pp ps where
        a: "assign pproto properties key property = Inr (pp, ps)"
        and run: "serialize_props H R (Entry e) Builtin rest pp ps ts = (Inr r, ts')"
        by (auto split: sum.splits prod.splits)
      have "ts' = map_option (\<lambda>old. old @ (case Entry e of Entry e \<Rightarrow> walked_buffers_props R e rest | _ \<Rightarrow> [])) ts"
        using "11.IH"(2) g e not_omitted True a run hf_rest by simp
      with e True show ?thesis by simp
    next
      case not_shallow: False
      from "11.prems"(2) g e not_omitted not_shallow obtain s t1 pp ps where
        s: "serialize H R property ts = (Inr s, t1)"
        and a: "assign pproto properties key s = Inr (pp, ps)"
        and run: "serialize_props H R (Entry e) Builtin rest pp ps t1 = (Inr r, ts')"
        by (auto split: sum.splits prod.splits)
      from hf not_omitted not_shallow have hfp: "hook_free R property" by simp
      have t1: "t1 = map_option (\<lambda>old. old @ walked_buffers R property) ts"
        using "11.IH"(3) g e not_omitted not_shallow hfp s by simp
      have "ts' = map_option (\<lambda>old. old @ (case Entry e of Entry e \<Rightarrow> walked_buffers_props R e rest | _ \<Rightarrow> [])) t1"
        using "11.IH"(4) g e not_omitted not_shallow s a run hf_rest by simp
      with t1 e not_omitted not_shallow show ?thesis by (cases ts) simp_all
    qed
  qed
qed (auto simp: option.map_ident split: found.splits)


text \<open>
  C3, as the code has it. With a transferables array, \<^verbatim>\<open>serialize\<close> of a buffer pushes that
  very buffer once and returns it, and \<^verbatim>\<open>serialize\<close> of a view pushes the view's buffer once
  and returns the view itself. There is no de-duplication: when \<^verbatim>\<open>serialize\<close> returns on a
  value in which the walk meets no class with a static \<^verbatim>\<open>serialize\<close> hook, the array holds
  what it held, followed by one buffer for every buffer and every view that the walk
  visits, in the order of the walk (array elements, and properties that are neither
  omitted nor shallow); a buffer is pushed as many times as the walk visits it or a view
  of it.
\<close>

theorem buffers_collected_per_occurrence:
  "serialize H R (VArrayBuffer b) (Some ts) = (Inr (VArrayBuffer b), Some (ts @ [VArrayBuffer b]))
   \<and> serialize H R (VView i b) (Some ts) = (Inr (VView i b), Some (ts @ [VArrayBuffer b]))
   \<and> (hook_free R v \<and> serialize H R v (Some ts) = (Inr t, ts') \<longrightarrow>
        ts' = Some (ts @ walked_buffers R v))"
  using serialize_pushes_walked(1) [of R v H "Some ts" t ts']
  by (simp add: push_def)

theorem buffers_collected_per_occurrence_witness:
  "hook_free registry2 example_bucket
   \<and> serialize hooks0 registry2 example_bucket (Some [VArrayBuffer 3])
       = (Inr example_bucket_serialized,
          Some ([VArrayBuffer 3] @ [VArrayBuffer 7, VArrayBuffer 7, VArrayBuffer 7, VArrayBuffer 8]))
   \<and> walked_buffers registry2 example_bucket = [VArrayBuffer 7, VArrayBuffer 7, VArrayBuffer 7, VArrayBuffer 8]"
proof -
  have hf: "hook_free registry2 example_bucket"
    using registry2_Bucket registry2_Object
    by (simp add: example_bucket_def constructor_of_def Bucket_klass_def Object_klass_def)
  have w: "walked_buffers registry2 example_bucket
             = [VArrayBuffer 7, VArrayBuffer 7, VArrayBuffer 7, VArrayBuffer 8]"
    using registry2_Bucket registry2_Object
    by (simp add: example_bucket_def constructor_of_def Bucket_klass_def Object_klass_def)
  have inner: "serialize hooks0 registry2
                 (VObject (Some Object_klass) [(''list'', VArray [VView 3 7, VArrayBuffer 8])])
                 (Some [VArrayBuffer 3, VArrayBuffer 7, VArrayBuffer 7])
               = (Inr (transport_record ''Object'' [(''list'', VArray [VView 3 7, VArrayBuffer 8])]),
                  Some [VArrayBuffer 3, VArrayBuffer 7, VArrayBuffer 7, VArrayBuffer 7, VArrayBuffer 8])"
    using registry2_Object
    by (simp add: serialize_instance constructor_of_def has_own_property_def registry_get_Some
        Object_klass_def push_def assign.simps transport_record_def)
  have s: "serialize hooks0 registry2 example_bucket (Some [VArrayBuffer 3])
       = (Inr example_bucket_serialized,
          Some ([VArrayBuffer 3] @ [VArrayBuffer 7, VArrayBuffer 7, VArrayBuffer 7, VArrayBuffer 8]))"
    using registry2_Bucket inner
    by (simp add: example_bucket_def example_bucket_serialized_def serialize_instance constructor_of_def
        has_own_property_def registry_get_Some Bucket_klass_def push_def assign.simps transport_record_def)
  from hf s have "hook_free registry2 example_bucket
      \<and> serialize hooks0 registry2 example_bucket (Some [VArrayBuffer 3])
       = (Inr example_bucket_serialized,
          Some ([VArrayBuffer 3] @ [VArrayBuffer 7, VArrayBuffer 7, VArrayBuffer 7, VArrayBuffer 8]))"
    by (rule conjI)
  from mp [OF conjunct2 [OF conjunct2 [OF buffers_collected_per_occurrence]] this]
  have "Some ([VArrayBuffer 3] @ [VArrayBuffer 7, VArrayBuffer 7, VArrayBuffer 7, VArrayBuffer 8])
          = Some ([VArrayBuffer 3] @ walked_buffers registry2 example_bucket)" .
  then have "walked_buffers registry2 example_bucket
          = [VArrayBuffer 7, VArrayBuffer 7, VArrayBuffer 7, VArrayBuffer 8]" by simp
  with hf s show ?thesis by (intro conjI)
qed

text \<open>
  C3 as stated fails: two distinct views (identities 1 and 2) of the same buffer 7, in one
  array, leave buffer 7 in the transferables twice; buffer 7 under the shallow key of a
  \<^verbatim>\<open>Bucket\<close> is not pushed at all; and neither is buffer 7 in an instance of a class whose
  static \<^verbatim>\<open>serialize\<close> hook pushes nothing.
\<close>

theorem shared_buffer_collected_twice:
  "snd (serialize hooks0 registry0 (VArray [VView 1 7, VView 2 7]) (Some []))
     = Some [VArrayBuffer 7, VArrayBuffer 7]
   \<and> count_list [VArrayBuffer 7, VArrayBuffer 7] (VArrayBuffer 7) = 2
   \<and> serialize hooks0 registry2 (VObject (Some Bucket_klass) [(''raw'', VArrayBuffer 7)]) (Some [])
     = (Inr (transport_record ''Bucket'' [(''raw'', VArrayBuffer 7)]), Some [])
   \<and> serialize hooks0 registry1 (VObject (Some StructArray_klass) [(''buf'', VArrayBuffer 7)]) (Some [])
     = (Inr (transport_record ''StructArray'' [(''_serialized'', VStr ''payload'')]), Some [])"
  using registry2_Bucket registry1_StructArray
  by (simp add: push_def serialize_instance constructor_of_def has_own_property_def registry_get_Some
      Bucket_klass_def StructArray_klass_def assign.simps transport_record_def hooks0_def after_hook_def)

subsection \<open>The round trip\<close>

lemma without_omitted_props_keys:
  "map fst (without_omitted_props R e props) = filter (\<lambda>key. key \<notin> set (omit e)) (map fst props)"
  by (induction props) auto

lemma without_omitted_props_lookup:
  "distinct (map fst props) \<Longrightarrow> key \<notin> set (omit e) \<Longrightarrow>
   map_of (without_omitted_props R e props) key =
     (if key \<in> set (shallow e) then map_of props key
      else map_option (without_omitted R) (map_of props key))"
  by (induction props) auto

lemma serialize_then_deserialize:
  "serializable H D R v \<Longrightarrow>
     \<exists>t ts'. serialize H R v ts = (Inr t, ts') \<and> deserialize D R t = Inr (without_omitted R v)"
  "serializable_items H D R xs \<Longrightarrow>
     \<exists>zs ts'. serialize_items H R xs acc ts = (Inr (acc @ zs), ts')
        \<and> deserialize_items D R zs = Inr (without_omitted_items R xs)"
  "registered = Entry e \<Longrightarrow> g = Builtin \<Longrightarrow>
   serializable_props H D R e props \<Longrightarrow> distinct (map fst pacc @ map fst props) \<Longrightarrow>
     \<exists>zs ts'. serialize_props H R registered g props pproto pacc ts = (Inr (pproto, pacc @ zs), ts')
        \<and> set (map fst zs) \<subseteq> set (map fst props) \<and> ''__proto__'' \<notin> set (map fst zs)
        \<and> distinct (map fst zs)
        \<and> (\<forall>rproto result. distinct (map fst result @ map fst zs) \<longrightarrow>
              deserialize_props D R e zs rproto result
                = Inr (rproto, result @ without_omitted_props R e props))"
proof (induction H R v ts and H R xs acc ts and H R registered g props pproto pacc ts
       arbitrary: and and e
       rule: serialize_serialize_items_serialize_props.induct)
  case (3 H R xs ts)
  have "\<exists>zs ts'. serialize_items H R xs [] ts = (Inr ([] @ zs), ts')
        \<and> deserialize_items D R zs = Inr (without_omitted_items R xs)"
    using "3.IH" "3.prems" by simp
  then obtain zs ts' where "serialize_items H R xs [] ts = (Inr zs, ts')"
    "deserialize_items D R zs = Inr (without_omitted_items R xs)"
    by auto
  then show ?case by simp
next
  case (4 H R proto props ts)
  from "4.prems" obtain k e where
    proto: "proto = Some k" and no_ctor: "map_of props ''constructor'' = None"
    and name: "kname k \<noteq> []" and e: "R (kname k) = Some e" and k: "klass e = k"
    by (auto split: option.splits)
  from no_ctor proto have c: "constructor_of proto props = VFunction k"
    by (simp add: constructor_of_instance)
  from e have get: "registry_get R (kname k) = Entry e" by (rule registry_get_Some)
  show ?case
  proof (cases "kserialize k")
    case (Some h)
    with "4.prems" proto e obtain h' where h': "kdeserialize k = Some h'"
      and inv: "hooks_inverse H D h h' (VObject proto props)"
      by (auto split: option.splits)
    from inv obtain payload xs where
      p: "H h (VObject proto props) ts = (Inr payload, xs)" and d: "D h' payload = Inr (VObject proto props)"
      unfolding hooks_inverse_def by blast
    have s: "serialize H R (VObject proto props) ts
               = (Inr (transport_record (kname k) [(''_serialized'', payload)]), after_hook ts xs)"
      using get Some p by (simp add: serialize_instance [OF c name])
    have "deserialize D R (transport_record (kname k) [(''_serialized'', payload)])
            = Inr (without_omitted R (VObject proto props))"
      using name get k h' d proto Some
      by (simp add: transport_record_def deserialize_record get_prop_def)
    with s show ?thesis by blast
  next
    case None
    with "4.prems" proto e have no_d: "kdeserialize k = None"
      and no_hop: "map_of props ''hasOwnProperty'' = None"
      and dist: "distinct (map fst props)" and props: "serializable_props H D R e props"
      by (auto split: option.splits)
    from no_hop proto have g: "has_own_property proto props = Builtin"
      by (simp add: has_own_property_def)
    have "\<exists>zs ts'. serialize_props H R (Entry e) (has_own_property proto props) props (Some Object_klass) [] ts
                      = (Inr (Some Object_klass, [] @ zs), ts')
        \<and> set (map fst zs) \<subseteq> set (map fst props) \<and> ''__proto__'' \<notin> set (map fst zs)
        \<and> distinct (map fst zs)
        \<and> (\<forall>rproto result. distinct (map fst result @ map fst zs) \<longrightarrow>
              deserialize_props D R e zs rproto result
                = Inr (rproto, result @ without_omitted_props R e props))"
      using "4.IH"(2) c name get None g props dist by simp
    then obtain zs ts' where
      zs: "serialize_props H R (Entry e) (has_own_property proto props) props (Some Object_klass) [] ts
             = (Inr (Some Object_klass, zs), ts')"
      and dz: "distinct (map fst zs)"
      and again: "\<And>rproto result. distinct (map fst result @ map fst zs) \<Longrightarrow>
              deserialize_props D R e zs rproto result
                = Inr (rproto, result @ without_omitted_props R e props)"
      by auto
    from again [of "[]" "Some k"] dz
    have b: "deserialize_props D R e zs (Some k) [] = Inr (Some k, without_omitted_props R e props)"
      by simp
    have s: "serialize H R (VObject proto props) ts = (Inr (record_of (kname k) (Some Object_klass) zs), ts')"
      using get None zs by (simp add: serialize_instance [OF c name])
    have d: "deserialize D R (record_of (kname k) (Some Object_klass) zs)
               = Inr (without_omitted R (VObject proto props))"
      using name get k no_d b proto None e by (simp add: deserialize_record)
    from s d show ?thesis by blast
  qed
next
  case (9 H R item items serialized ts)
  from "9.prems" have item: "serializable H D R item" and items: "serializable_items H D R items"
    by simp_all
  from "9.IH"(1) [OF item] obtain s t where
    s: "serialize H R item ts = (Inr s, t)" and ds: "deserialize D R s = Inr (without_omitted R item)"
    by blast
  have "\<exists>zs ts'. serialize_items H R items (serialized @ [s]) t = (Inr ((serialized @ [s]) @ zs), ts')
        \<and> deserialize_items D R zs = Inr (without_omitted_items R items)"
    using "9.IH"(2) s items by simp
  then obtain zs ts' where
    zs: "serialize_items H R items (serialized @ [s]) t = (Inr ((serialized @ [s]) @ zs), ts')"
    and dzs: "deserialize_items D R zs = Inr (without_omitted_items R items)"
    by blast
  from s zs have "serialize_items H R (item # items) serialized ts = (Inr (serialized @ (s # zs)), ts')"
    by simp
  moreover from ds dzs have "deserialize_items D R (s # zs) = Inr (without_omitted_items R (item # items))"
    by simp
  ultimately show ?case by blast
next
  case (11 H R registered g key property rest pproto properties ts)
  note reg = "11.prems"(1) and g = "11.prems"(2)
  from "11.prems"(3) have rest: "serializable_props H D R e rest" by simp
  from "11.prems"(4) have fresh: "key \<notin> fst ` set properties"
    and key_rest: "key \<notin> set (map fst rest)"
    and dist_rest: "distinct (map fst properties @ map fst rest)"
    by auto
  show ?case
  proof (cases "key \<in> set (omit e)")
    case True
    have "\<exists>zs ts'. serialize_props H R registered g rest pproto properties ts = (Inr (pproto, properties @ zs), ts')
        \<and> set (map fst zs) \<subseteq> set (map fst rest) \<and> ''__proto__'' \<notin> set (map fst zs)
        \<and> distinct (map fst zs)
        \<and> (\<forall>rproto result. distinct (map fst result @ map fst zs) \<longrightarrow>
              deserialize_props D R e zs rproto result
                = Inr (rproto, result @ without_omitted_props R e rest))"
      using "11.IH"(1) reg g True rest dist_rest by simp
    then obtain zs ts' where
      "serialize_props H R registered g rest pproto properties ts = (Inr (pproto, properties @ zs), ts')"
      "set (map fst zs) \<subseteq> set (map fst rest)" "''__proto__'' \<notin> set (map fst zs)"
      "distinct (map fst zs)"
      "\<forall>rproto result. distinct (map fst result @ map fst zs) \<longrightarrow>
              deserialize_props D R e zs rproto result
                = Inr (rproto, result @ without_omitted_props R e rest)"
      by blast
    with True reg g show ?thesis by auto
  next
    case not_omitted: False
    with "11.prems"(3) have key: "key \<noteq> ''__proto__''" by simp
    show ?thesis
    proof (cases "key \<in> set (shallow e)")
      case True
      have a: "assign pproto properties key property = Inr (pproto, properties @ [(key, property)])"
        using key fresh by (simp add: assign_ordinary set_prop_fresh)
      have d1: "distinct (map fst (properties @ [(key, property)]) @ map fst rest)"
        using "11.prems"(4) by auto
      have "\<exists>zs ts'. serialize_props H R registered g rest pproto (properties @ [(key, property)]) ts
                = (Inr (pproto, (properties @ [(key, property)]) @ zs), ts')
        \<and> set (map fst zs) \<subseteq> set (map fst rest) \<and> ''__proto__'' \<notin> set (map fst zs)
        \<and> distinct (map fst zs)
        \<and> (\<forall>rproto result. distinct (map fst result @ map fst zs) \<longrightarrow>
              deserialize_props D R e zs rproto result
                = Inr (rproto, result @ without_omitted_props R e rest))"
        by (rule "11.IH"(2) [OF g reg not_omitted True a refl reg g rest d1])
      then obtain zs ts' where
        zs: "serialize_props H R registered g rest pproto (properties @ [(key, property)]) ts
                = (Inr (pproto, (properties @ [(key, property)]) @ zs), ts')"
        and sub: "set (map fst zs) \<subseteq> set (map fst rest)" and np: "''__proto__'' \<notin> set (map fst zs)"
        and dz: "distinct (map fst zs)"
        and again: "\<And>rproto result. distinct (map fst result @ map fst zs) \<Longrightarrow>
              deserialize_props D R e zs rproto result
                = Inr (rproto, result @ without_omitted_props R e rest)"
        by auto
      have s: "serialize_props H R registered g ((key, property) # rest) pproto properties ts
                 = (Inr (pproto, properties @ ((key, property) # zs)), ts')"
        using reg g not_omitted True a zs by simp
      have k1: "set (map fst ((key, property) # zs)) \<subseteq> set (map fst ((key, property) # rest))"
        using sub by auto
      have k2: "distinct (map fst ((key, property) # zs))"
        using sub dz key_rest by auto
      have k3: "''__proto__'' \<notin> set (map fst ((key, property) # zs))"
        using np key by auto
      have "deserialize_props D R e ((key, property) # zs) rproto result
              = Inr (rproto, result @ without_omitted_props R e ((key, property) # rest))"
        if "distinct (map fst result @ map fst ((key, property) # zs))" for rproto result
      proof -
        from that have f: "key \<notin> fst ` set result"
          and d2: "distinct (map fst (result @ [(key, property)]) @ map fst zs)" by auto
        from again [OF d2, of rproto] f not_omitted True key show ?thesis
          by (simp add: assign_ordinary set_prop_fresh)
      qed
      with s k1 k2 k3 show ?thesis by blast
    next
      case not_shallow: False
      from "11.prems"(3) not_omitted not_shallow have p: "serializable H D R property" by simp
      have "\<exists>t ts'. serialize H R property ts = (Inr t, ts')
              \<and> deserialize D R t = Inr (without_omitted R property)"
        using "11.IH"(3) reg g not_omitted not_shallow p by simp
      then obtain s t where
        s: "serialize H R property ts = (Inr s, t)"
        and ds: "deserialize D R s = Inr (without_omitted R property)"
        by blast
      have a: "assign pproto properties key s = Inr (pproto, properties @ [(key, s)])"
        using key fresh by (simp add: assign_ordinary set_prop_fresh)
      have d1: "distinct (map fst (properties @ [(key, s)]) @ map fst rest)"
        using "11.prems"(4) by auto
      have "\<exists>zs ts'. serialize_props H R registered g rest pproto (properties @ [(key, s)]) t
                = (Inr (pproto, (properties @ [(key, s)]) @ zs), ts')
        \<and> set (map fst zs) \<subseteq> set (map fst rest) \<and> ''__proto__'' \<notin> set (map fst zs)
        \<and> distinct (map fst zs)
        \<and> (\<forall>rproto result. distinct (map fst result @ map fst zs) \<longrightarrow>
              deserialize_props D R e zs rproto result
                = Inr (rproto, result @ without_omitted_props R e rest))"
        by (rule "11.IH"(4) [OF g reg not_omitted not_shallow s [symmetric] refl a refl reg g rest d1])
      then obtain zs ts' where
        zs: "serialize_props H R registered g rest pproto (properties @ [(key, s)]) t
                = (Inr (pproto, (properties @ [(key, s)]) @ zs), ts')"
        and sub: "set (map fst zs) \<subseteq> set (map fst rest)" and np: "''__proto__'' \<notin> set (map fst zs)"
        and dz: "distinct (map fst zs)"
        and again: "\<And>rproto result. distinct (map fst result @ map fst zs) \<Longrightarrow>
              deserialize_props D R e zs rproto result
                = Inr (rproto, result @ without_omitted_props R e rest)"
        by auto
      have r: "serialize_props H R registered g ((key, property) # rest) pproto properties ts
                 = (Inr (pproto, properties @ ((key, s) # zs)), ts')"
        using reg g not_omitted not_shallow s a zs by simp
      have k1: "set (map fst ((key, s) # zs)) \<subseteq> set (map fst ((key, property) # rest))"
        using sub by auto
      have k2: "distinct (map fst ((key, s) # zs))"
        using sub dz key_rest by auto
      have k3: "''__proto__'' \<notin> set (map fst ((key, s) # zs))"
        using np key by auto
      have "deserialize_props D R e ((key, s) # zs) rproto result
              = Inr (rproto, result @ without_omitted_props R e ((key, property) # rest))"
        if "distinct (map fst result @ map fst ((key, s) # zs))" for rproto result
      proof -
        from that have f: "key \<notin> fst ` set result"
          and d2: "distinct (map fst (result @ [(key, without_omitted R property)]) @ map fst zs)" by auto
        from again [OF d2, of rproto] f not_omitted not_shallow ds key show ?thesis
          by (simp add: assign_ordinary set_prop_fresh)
      qed
      with r k1 k2 k3 show ?thesis by blast
    qed
  qed
qed simp_all

text \<open>
  C1, as the code has it. Let \<open>v\<close> be a value in which every object that the walk of
  \<^verbatim>\<open>serialize\<close> meets is an instance of a registered class and has no own property called
  \<^verbatim>\<open>constructor\<close>, and either the class has both static hooks and they are inverse on the
  object, or it has none and the object has no own property called \<^verbatim>\<open>hasOwnProperty\<close> and
  none called \<^verbatim>\<open>__proto__\<close> outside the omit list (\<open>serializable\<close>). Then \<^verbatim>\<open>serialize\<close>
  returns on \<open>v\<close>, with or without a transferables array, and \<^verbatim>\<open>deserialize\<close> returns on its
  result the value \<open>v\<close> without the omitted properties. For an instance of a class without
  hooks and with registry entry \<open>e\<close> this is an instance of the same class whose keys are
  the keys of \<open>v\<close> that are not in the omit list, in the same order: an omitted key is not
  a key of the result, a shallow key has the value it had, and any other key has the
  value it had, again without the omitted properties of the instances inside it.
\<close>

theorem round_trip:
  "serializable H D R v \<Longrightarrow>
     (\<exists>t ts'. serialize H R v ts = (Inr t, ts') \<and> deserialize D R t = Inr (without_omitted R v))
   \<and> (\<forall>k props e. v = VObject (Some k) props \<and> kserialize k = None \<and> R (kname k) = Some e \<longrightarrow>
        (\<exists>qs. without_omitted R v = VObject (Some k) qs
           \<and> map fst qs = filter (\<lambda>key. key \<notin> set (omit e)) (map fst props)
           \<and> (\<forall>key. key \<in> set (omit e) \<longrightarrow> key \<notin> set (map fst qs))
           \<and> (\<forall>key. key \<notin> set (omit e) \<longrightarrow>
                 map_of qs key =
                   (if key \<in> set (shallow e) then map_of props key
                    else map_option (without_omitted R) (map_of props key)))))"
proof -
  assume v: "serializable H D R v"
  have "\<exists>qs. without_omitted R v = VObject (Some k) qs
           \<and> map fst qs = filter (\<lambda>key. key \<notin> set (omit e)) (map fst props)
           \<and> (\<forall>key. key \<in> set (omit e) \<longrightarrow> key \<notin> set (map fst qs))
           \<and> (\<forall>key. key \<notin> set (omit e) \<longrightarrow>
                 map_of qs key =
                   (if key \<in> set (shallow e) then map_of props key
                    else map_option (without_omitted R) (map_of props key)))"
    if obj: "v = VObject (Some k) props" and no_hook: "kserialize k = None"
      and e: "R (kname k) = Some e" for k props e
  proof -
    from v obj no_hook e have dist: "distinct (map fst props)" by simp
    have w: "without_omitted R v = VObject (Some k) (without_omitted_props R e props)"
      using obj no_hook e by simp
    have keys: "map fst (without_omitted_props R e props)
                  = filter (\<lambda>key. key \<notin> set (omit e)) (map fst props)"
      by (rule without_omitted_props_keys)
    have absent: "\<forall>key. key \<in> set (omit e) \<longrightarrow> key \<notin> set (map fst (without_omitted_props R e props))"
      unfolding keys by simp
    have present: "\<forall>key. key \<notin> set (omit e) \<longrightarrow>
                 map_of (without_omitted_props R e props) key =
                   (if key \<in> set (shallow e) then map_of props key
                    else map_option (without_omitted R) (map_of props key))"
      using without_omitted_props_lookup [OF dist] by blast
    from w keys absent present show ?thesis by blast
  qed
  with serialize_then_deserialize(1) [OF v, of ts] show ?thesis by blast
qed

theorem round_trip_witness:
  "serializable hooks0 dhooks0 registry1 example_expression
   \<and> (\<exists>t ts'. serialize hooks0 registry1 example_expression (Some []) = (Inr t, ts')
         \<and> deserialize dhooks0 registry1 t = Inr example_expression_restored)"
proof -
  have inv: "hooks_inverse hooks0 dhooks0 0 0 (VObject (Some StructArray_klass) [])"
    by (simp add: hooks_inverse_def hooks0_def dhooks0_def)
  have s: "serializable hooks0 dhooks0 registry1 example_expression"
    using registry1_Object registry1_StyleExpression registry1_StructArray inv
    by (simp add: example_expression_def StyleExpression_klass_def Object_klass_def StructArray_klass_def)
  have w: "without_omitted registry1 example_expression = example_expression_restored"
    using registry1_Object registry1_StyleExpression registry1_StructArray
    by (simp add: example_expression_def example_expression_restored_def StyleExpression_klass_def
        Object_klass_def StructArray_klass_def)
  from conjunct1 [OF round_trip [OF s, of "Some []"]]
  have "\<exists>t ts'. serialize hooks0 registry1 example_expression (Some []) = (Inr t, ts')
         \<and> deserialize dhooks0 registry1 t = Inr (without_omitted registry1 example_expression)" .
  then have "\<exists>t ts'. serialize hooks0 registry1 example_expression (Some []) = (Inr t, ts')
         \<and> deserialize dhooks0 registry1 t = Inr example_expression_restored"
    by (simp only: w)
  with s show ?thesis by (rule conjI)
qed

text \<open>
  C1 as stated fails on instances of registered classes whose properties are all scalars:
  a plain object with an own property \<^verbatim>\<open>hasOwnProperty\<close> is not serialized (the guard of the
  loop calls the number 1); a plain object with an own property \<^verbatim>\<open>__proto__\<close> (as
  \<^verbatim>\<open>JSON.parse\<close> makes it) comes back without it, though it is not omitted; a plain object
  with an own property \<^verbatim>\<open>constructor\<close> is rejected as of an anonymous class; and an
  instance of a class whose static hooks are not inverse to each other comes back without
  its property \<^verbatim>\<open>x\<close>.
\<close>

theorem round_trip_fails_on_special_keys:
  "serialize hooks0 registry0 (VObject (Some Object_klass) [(''hasOwnProperty'', VNum 1)]) None
     = (Inl TypeError, None)
   \<and> serialize hooks0 registry0 (VObject (Some Object_klass) [(''__proto__'', VNum 1)]) None
     = (Inr (transport_record ''Object'' []), None)
   \<and> deserialize dhooks0 registry0 (transport_record ''Object'' []) = Inr (VObject (Some Object_klass) [])
   \<and> serialize hooks0 registry0 (VObject (Some Object_klass) [(''constructor'', VStr ''x'')]) None
     = (Inl AnonymousClass, None)
   \<and> serialize hooks0 registry1 (VObject (Some StructArray_klass) [(''x'', VNum 1)]) None
     = (Inr (transport_record ''StructArray'' [(''_serialized'', VStr ''payload'')]), None)
   \<and> deserialize dhooks0 registry1 (transport_record ''StructArray'' [(''_serialized'', VStr ''payload'')])
     = Inr (VObject (Some StructArray_klass) [])"
proof -
  have c: "constructor_of (Some Object_klass) [(''hasOwnProperty'', VNum 1)] = VFunction Object_klass"
    "constructor_of (Some Object_klass) [(''__proto__'', VNum 1)] = VFunction Object_klass"
    "constructor_of (Some StructArray_klass) [(''x'', VNum 1)] = VFunction StructArray_klass"
    by (simp_all add: constructor_of_def)
  have sel: "kname Object_klass = ''Object''" "kserialize Object_klass = None"
    "kdeserialize Object_klass = None"
    "kname StructArray_klass = ''StructArray''" "kserialize StructArray_klass = Some 0"
    "kdeserialize StructArray_klass = Some 0"
    by (simp_all add: Object_klass_def StructArray_klass_def)
  have n: "kname Object_klass \<noteq> []" "kname StructArray_klass \<noteq> []"
    by (simp_all add: sel)
  have g: "registry_get registry0 ''Object'' = Entry \<lparr>klass = Object_klass, omit = [], shallow = []\<rparr>"
    using registry0_Object by (rule registry_get_Some)
  have g1: "registry_get registry1 ''StructArray''
              = Entry \<lparr>klass = StructArray_klass, omit = [], shallow = []\<rparr>"
    using registry1_StructArray by (rule registry_get_Some)
  have 1: "serialize hooks0 registry0 (VObject (Some Object_klass) [(''hasOwnProperty'', VNum 1)]) None
     = (Inl TypeError, None)"
    by (simp add: serialize_instance [OF c(1) n(1)] g sel has_own_property_def)
  have 2: "serialize hooks0 registry0 (VObject (Some Object_klass) [(''__proto__'', VNum 1)]) None
     = (Inr (transport_record ''Object'' []), None)"
    by (simp add: serialize_instance [OF c(2) n(1)] g sel has_own_property_def
        assign.simps transport_record_def)
  have 3: "deserialize dhooks0 registry0 (transport_record ''Object'' []) = Inr (VObject (Some Object_klass) [])"
    by (simp add: transport_record_def deserialize_record g sel)
  have 4: "serialize hooks0 registry0 (VObject (Some Object_klass) [(''constructor'', VStr ''x'')]) None
     = (Inl AnonymousClass, None)"
    by (simp add: serialize.simps(4) constructor_of_def)
  have 5: "serialize hooks0 registry1 (VObject (Some StructArray_klass) [(''x'', VNum 1)]) None
     = (Inr (transport_record ''StructArray'' [(''_serialized'', VStr ''payload'')]), None)"
    by (simp add: serialize_instance [OF c(3) n(2)] g1 sel hooks0_def after_hook_def)
  have 6: "deserialize dhooks0 registry1 (transport_record ''StructArray'' [(''_serialized'', VStr ''payload'')])
     = Inr (VObject (Some StructArray_klass) [])"
    by (simp add: transport_record_def deserialize_record g1 sel dhooks0_def get_prop_def)
  from 1 2 3 4 5 6 show ?thesis by (intro conjI)
qed

subsection \<open>What serialize leaves of the store\<close>






















end
